theory Spec2Isabelle
  imports Main "HOL-Library.Multiset"
begin

section \<open>Data model (actions package)\<close>

text \<open>
  Errors of the Go code as values. \<open>Errorf\<close> is an error built by \<open>fmt.Errorf\<close> (its
  message), \<open>NumError\<close> the error of \<open>strconv.ParseInt\<close>/\<open>strconv.Atoi\<close> (function name
  and offending input), \<open>ApiError\<close> an error handed back by the GitHub client library,
  \<open>FsError\<close> an error of the file system, \<open>JsonError\<close> an error of \<open>encoding/json\<close>,
  \<open>Panic\<close> a run-time panic (nil dereference, \<open>regexp.MustCompile\<close> on a bad pattern).
\<close>

datatype error =
    Errorf string
  | NumError string string
  | ApiError string
  | FsError string
  | JsonError string
  | RegexpError string
  | Panic string

text \<open>The \<open>Source\<close> struct: the configuration of one resource instance.\<close>

record Source =
  SkipSSLVerification :: bool
  GithubEndpoint :: string
  Repository :: string
  DisableGitLfs :: bool
  AccessToken :: string
  Username :: string
  Password :: string
  OnlyMergeable :: bool
  States :: "string list"
  Labels :: "string list"
  Comments :: "string list"
  CommenterAssociation :: "string list"
  MapCommentMeta :: bool
  ReviewStates :: "string list"
  When :: string
  IgnoreStates :: "string list"
  IgnoreLabels :: "string list"
  IgnoreComments :: "string list"
  IgnoreDrafts :: bool

text \<open>The \<open>Version\<close> struct communicated with Concourse: four strings.\<close>

record Version =
  CreatedAt :: string
  PrID :: string
  ReviewID :: string
  CommentID :: string

section \<open>External views (go-github structs)\<close>

text \<open>
  The go-github structs hold pointers; a field that is \<open>nil\<close> is \<open>None\<close>, and
  dereferencing it panics. \<open>time.Time\<close> values are kept as Unix seconds. A label is its
  name; \<open>GetName\<close> of a nil label or a nil name is the empty string.
\<close>

type_synonym Label = "string option"

definition GetName :: "Label \<Rightarrow> string" where
  "GetName l = (case l of None \<Rightarrow> [] | Some n \<Rightarrow> n)"

record PullRequest =
  pr_Number :: "int option"
  pr_State :: "string option"
  pr_Labels :: "Label list"
  pr_Mergeable :: "bool option"
  pr_Draft :: "bool option"

record User =
  u_ID :: "int option"
  u_Login :: "string option"
  u_AvatarURL :: "string option"
  u_HTMLURL :: "string option"

record IssueComment =
  ic_ID :: "int option"
  ic_Body :: "string option"
  ic_User :: "User option"
  ic_CreatedAt :: "int option"
  ic_UpdatedAt :: "int option"
  ic_AuthorAssociation :: "string option"
  ic_HTMLURL :: "string option"

record PullRequestReview =
  rv_ID :: "int option"
  rv_Body :: "string option"
  rv_State :: "string option"
  rv_SubmittedAt :: "int option"

section \<open>Standard library and collaborators\<close>

text \<open>
  Functions of the Go standard library that the code calls and that are no part of this
  repository are parameters of the model: \<open>strings.ToLower\<close>, \<open>regexp.Match\<close> (an error
  when the pattern does not compile), \<open>sort.Slice\<close> (given the \<open>less\<close> function of the
  call), \<open>url.Parse\<close> and \<open>github.NewEnterpriseClient\<close>.
\<close>

record stdlib =
  strings_ToLower :: "string \<Rightarrow> string"
  regexp_Match :: "string \<Rightarrow> string \<Rightarrow> error + bool"
  sort_Slice :: "(Version \<Rightarrow> Version \<Rightarrow> bool) \<Rightarrow> Version list \<Rightarrow> Version list"
  url_Parse :: "string \<Rightarrow> error + string"
  github_NewEnterpriseClient :: "string \<Rightarrow> error + unit"

text \<open>
  The answers of the GitHub REST API for the configured repository, as the read-only
  methods of \<open>GithubClient\<close> hand them back.
\<close>

record GithubAPI =
  ListPullRequests :: "error + PullRequest list"
  ListPullRequestComments :: "int \<Rightarrow> error + IssueComment list"
  ListPullRequestReviews :: "int \<Rightarrow> error + PullRequestReview list"

text \<open>\<open>strconv.FormatInt(i, 10)\<close> and \<open>strconv.Itoa\<close>: the decimal digits, with a sign.\<close>

definition digit_char :: "nat \<Rightarrow> char" where
  "digit_char d = ''0123456789'' ! d"

fun FormatUint :: "nat \<Rightarrow> string" where
  "FormatUint n =
     (if n < 10 then [digit_char n] else FormatUint (n div 10) @ [digit_char (n mod 10)])"

declare FormatUint.simps [simp del]

definition FormatInt :: "int \<Rightarrow> string" where
  "FormatInt i = (if i < 0 then CHR ''-'' # FormatUint (nat (- i)) else FormatUint (nat i))"

text \<open>Go compares strings byte by byte; a proper prefix is smaller.\<close>

fun string_less :: "string \<Rightarrow> string \<Rightarrow> bool" where
  "string_less [] [] = False"
| "string_less [] (y # ys) = True"
| "string_less (x # xs) [] = False"
| "string_less (x # xs) (y # ys) =
     (if (of_char x :: nat) < of_char y then True
      else if (of_char y :: nat) < of_char x then False
      else string_less xs ys)"

section \<open>Source filter predicates\<close>

text \<open>
  \<open>requestsState\<close>. Both loops of the source set a flag and break at the first hit,
  which is membership in the list.
\<close>

fun states_loop :: "string list \<Rightarrow> string \<Rightarrow> bool \<Rightarrow> bool" where
  "states_loop [] state ret = ret"
| "states_loop (s # ss) state ret = (if s = state then True else states_loop ss state ret)"

fun ignore_states_loop :: "string list \<Rightarrow> string \<Rightarrow> bool \<Rightarrow> bool" where
  "ignore_states_loop [] state ret = ret"
| "ignore_states_loop (s # ss) state ret =
     (if s = state then False else ignore_states_loop ss state ret)"

definition requestsState :: "'a Source_scheme \<Rightarrow> string \<Rightarrow> bool" where
  "requestsState source state =
     (let ret = (if length (States source) = 0 then state = ''open''
                 else states_loop (States source) state False)
      in ignore_states_loop (IgnoreStates source) state ret)"

text \<open>\<open>requestsReviewState\<close>: the lower-cased state against each lower-cased entry.\<close>

fun review_states_loop :: "stdlib \<Rightarrow> string list \<Rightarrow> string \<Rightarrow> bool" where
  "review_states_loop L [] state = False"
| "review_states_loop L (s # ss) state =
     (if state = strings_ToLower L s then True else review_states_loop L ss state)"

definition requestsReviewState :: "stdlib \<Rightarrow> 'a Source_scheme \<Rightarrow> string \<Rightarrow> bool" where
  "requestsReviewState L source state =
     review_states_loop L (ReviewStates source) (strings_ToLower L state)"

text \<open>
  \<open>requestsLabels\<close>: two nested loops, each left through its label at the first pair
  of equal names.
\<close>

fun labels_inner :: "string \<Rightarrow> Label list \<Rightarrow> bool" where
  "labels_inner rl [] = False"
| "labels_inner rl (rr # rrs) = (if rl = GetName rr then True else labels_inner rl rrs)"

fun includeLoop :: "string list \<Rightarrow> Label list \<Rightarrow> bool \<Rightarrow> bool" where
  "includeLoop [] labels ret = ret"
| "includeLoop (rl # rls) labels ret =
     (if labels_inner rl labels then True else includeLoop rls labels ret)"

fun excludeLoop :: "string list \<Rightarrow> Label list \<Rightarrow> bool \<Rightarrow> bool" where
  "excludeLoop [] labels ret = ret"
| "excludeLoop (rl # rls) labels ret =
     (if labels_inner rl labels then False else excludeLoop rls labels ret)"

definition requestsLabels :: "'a Source_scheme \<Rightarrow> Label list \<Rightarrow> bool" where
  "requestsLabels source labels =
     (let ret = (if length (Labels source) = 0 then True
                 else includeLoop (Labels source) labels False)
      in excludeLoop (IgnoreLabels source) labels ret)"

text \<open>\<open>requestsCommenterAssociation\<close>.\<close>

fun association_loop :: "stdlib \<Rightarrow> string list \<Rightarrow> string \<Rightarrow> bool" where
  "association_loop L [] assoc = False"
| "association_loop L (a # as) assoc =
     (if assoc = strings_ToLower L a then True else association_loop L as assoc)"

definition requestsCommenterAssociation :: "stdlib \<Rightarrow> 'a Source_scheme \<Rightarrow> string \<Rightarrow> bool" where
  "requestsCommenterAssociation L source assoc =
     (if length (CommenterAssociation source) = 0 \<or>
         (length (CommenterAssociation source) = 1 \<and> CommenterAssociation source ! 0 = ''all'')
      then True
      else association_loop L (CommenterAssociation source) (strings_ToLower L assoc))"

text \<open>
  \<open>requestsCommentRegex\<close>. Each call is \<open>matched, _ := regexp.Match(c, []byte(comment))\<close>:
  the error is dropped, and with an error \<open>matched\<close> is \<open>false\<close>. Neither loop breaks.
\<close>

definition matched :: "stdlib \<Rightarrow> string \<Rightarrow> string \<Rightarrow> bool" where
  "matched L c comment = (case regexp_Match L c comment of Inl err \<Rightarrow> False | Inr m \<Rightarrow> m)"

fun comments_loop :: "stdlib \<Rightarrow> string list \<Rightarrow> string \<Rightarrow> bool \<Rightarrow> bool" where
  "comments_loop L [] comment ret = ret"
| "comments_loop L (c # cs) comment ret =
     comments_loop L cs comment (if matched L c comment then True else ret)"

fun ignore_comments_loop :: "stdlib \<Rightarrow> string list \<Rightarrow> string \<Rightarrow> bool \<Rightarrow> bool" where
  "ignore_comments_loop L [] comment ret = ret"
| "ignore_comments_loop L (c # cs) comment ret =
     ignore_comments_loop L cs comment (if matched L c comment then False else ret)"

definition requestsCommentRegex :: "stdlib \<Rightarrow> 'a Source_scheme \<Rightarrow> string \<Rightarrow> bool" where
  "requestsCommentRegex L source comment =
     (let ret = (if length (Comments source) = 0 then True
                 else comments_loop L (Comments source) comment False)
      in ignore_comments_loop L (IgnoreComments source) comment ret)"

section \<open>The check operation\<close>

text \<open>
  \<open>api.NewGithubClient\<close>: \<open>parseRepository\<close> splits at \<open>/\<close> and wants two parts; a
  configured endpoint is parsed and handed to the enterprise client constructor.
\<close>

fun Split_slash :: "string \<Rightarrow> string list" where
  "Split_slash [] = [[]]"
| "Split_slash (c # cs) =
     (if c = CHR ''/'' then [] # Split_slash cs
      else (case Split_slash cs of [] \<Rightarrow> [[c]] | p # ps \<Rightarrow> (c # p) # ps))"

definition parseRepository :: "string \<Rightarrow> error + (string \<times> string)" where
  "parseRepository s =
     (let parts = Split_slash s
      in if length parts \<noteq> 2 then Inl (Errorf ''malformed repository'')
         else Inr (parts ! 0, parts ! 1))"

fun Error_string :: "error \<Rightarrow> string" where
  "Error_string (Errorf m) = m"
| "Error_string (NumError f s) = ''strconv.'' @ f @ '': parsing '' @ s @ '': invalid syntax''"
| "Error_string (ApiError m) = m"
| "Error_string (FsError m) = m"
| "Error_string (JsonError m) = m"
| "Error_string (RegexpError m) = m"
| "Error_string (Panic m) = m"

definition NewGithubClient :: "stdlib \<Rightarrow> string \<Rightarrow> string \<Rightarrow> error + (string \<times> string)" where
  "NewGithubClient L repo githubEndpoint =
     (case parseRepository repo of
        Inl err \<Rightarrow> Inl err
      | Inr owner_repository \<Rightarrow>
          if githubEndpoint \<noteq> [] then
            (case url_Parse L githubEndpoint of
               Inl err \<Rightarrow> Inl (Errorf (''failed to parse v3 endpoint: '' @ Error_string err))
             | Inr endpoint \<Rightarrow>
                 (case github_NewEnterpriseClient L endpoint of
                    Inl err \<Rightarrow> Inl err
                  | Inr u \<Rightarrow> Inr owner_repository))
          else Inr owner_repository)"

definition nil_dereference :: error where
  "nil_dereference = Panic ''invalid memory address or nil pointer dereference''"

text \<open>
  The loop over the comments of one pull request (number \<open>n\<close>). Its state is the flag
  \<open>latestCommentIsMatch\<close>, the pointer \<open>version\<close> and the slice \<open>versions\<close>. In mode
  \<open>first\<close> the loop is left at the first match.
\<close>

type_synonym track_state = "bool \<times> Version option \<times> Version list"

fun comments_track ::
  "stdlib \<Rightarrow> 'a Source_scheme \<Rightarrow> int \<Rightarrow> IssueComment list \<Rightarrow> track_state \<Rightarrow> error + track_state"
where
  "comments_track L source n [] st = Inr st"
| "comments_track L source n (comment # rest) (latestCommentIsMatch, version, versions) =
     (case ic_AuthorAssociation comment of
        None \<Rightarrow> Inl nil_dereference
      | Some assoc \<Rightarrow>
          if \<not> requestsCommenterAssociation L source assoc
          then comments_track L source n rest (False, version, versions)
          else
            (case ic_Body comment of
               None \<Rightarrow> Inl nil_dereference
             | Some body \<Rightarrow>
                 if \<not> requestsCommentRegex L source body
                 then comments_track L source n rest (False, version, versions)
                 else
                   (case (ic_CreatedAt comment, ic_ID comment) of
                      (Some created, Some cid) \<Rightarrow>
                        (let v = \<lparr>CreatedAt = FormatInt created, PrID = FormatInt n,
                                  ReviewID = [], CommentID = FormatInt cid\<rparr>;
                             versions' = (if When source = ''all'' \<or> When source = ''first''
                                          then versions @ [v] else versions)
                         in if When source = ''first'' then Inr (True, Some v, versions')
                            else comments_track L source n rest (True, Some v, versions'))
                    | _ \<Rightarrow> Inl nil_dereference)))"

text \<open>The same loop over the reviews, with \<open>requestsReviewState\<close> and the review id.\<close>

fun reviews_track ::
  "stdlib \<Rightarrow> 'a Source_scheme \<Rightarrow> int \<Rightarrow> PullRequestReview list \<Rightarrow> track_state \<Rightarrow> error + track_state"
where
  "reviews_track L source n [] st = Inr st"
| "reviews_track L source n (review # rest) (latestReviewIsMatch, version, versions) =
     (case rv_State review of
        None \<Rightarrow> Inl nil_dereference
      | Some state \<Rightarrow>
          if \<not> requestsReviewState L source state
          then reviews_track L source n rest (False, version, versions)
          else
            (case rv_Body review of
               None \<Rightarrow> Inl nil_dereference
             | Some body \<Rightarrow>
                 if \<not> requestsCommentRegex L source body
                 then reviews_track L source n rest (False, version, versions)
                 else
                   (case (rv_SubmittedAt review, rv_ID review) of
                      (Some submitted, Some rid) \<Rightarrow>
                        (let v = \<lparr>CreatedAt = FormatInt submitted, PrID = FormatInt n,
                                  ReviewID = FormatInt rid, CommentID = []\<rparr>;
                             versions' = (if When source = ''all'' \<or> When source = ''first''
                                          then versions @ [v] else versions)
                         in if When source = ''first'' then Inr (True, Some v, versions')
                            else reviews_track L source n rest (True, Some v, versions'))
                    | _ \<Rightarrow> Inl nil_dereference)))"

text \<open>
  \<open>Only save the latest\<close>: after either loop, in mode \<open>latest\<close> and with the flag set,
  \<open>*version\<close> is appended.
\<close>

definition save_latest :: "'a Source_scheme \<Rightarrow> track_state \<Rightarrow> error + Version list" where
  "save_latest source st =
     (case st of (latestIsMatch, version, versions) \<Rightarrow>
        if When source = ''latest'' \<and> latestIsMatch
        then (case version of None \<Rightarrow> Inl nil_dereference | Some v \<Rightarrow> Inr (versions @ [v]))
        else Inr versions)"

text \<open>
  The comment track of one pull request: the loop and the append after it. It hands on
  the pointer \<open>version\<close>, which the review track starts with.
\<close>

definition comment_phase ::
  "stdlib \<Rightarrow> 'a Source_scheme \<Rightarrow> int \<Rightarrow> IssueComment list \<Rightarrow> Version list
     \<Rightarrow> error + (Version option \<times> Version list)"
where
  "comment_phase L source n comments versions =
     (case comments_track L source n comments (False, None, versions) of
        Inl err \<Rightarrow> Inl err
      | Inr st \<Rightarrow>
          (case save_latest source st of
             Inl err \<Rightarrow> Inl err
           | Inr versions' \<Rightarrow> Inr (fst (snd st), versions')))"

definition review_phase ::
  "stdlib \<Rightarrow> 'a Source_scheme \<Rightarrow> int \<Rightarrow> PullRequestReview list \<Rightarrow> Version option
     \<Rightarrow> Version list \<Rightarrow> error + Version list"
where
  "review_phase L source n reviews version versions =
     (case reviews_track L source n reviews (False, version, versions) of
        Inl err \<Rightarrow> Inl err
      | Inr st \<Rightarrow> save_latest source st)"

text \<open>
  One iteration of the loop over the pull requests; \<open>continue\<close> is the unchanged list.
\<close>

definition pull_body ::
  "stdlib \<Rightarrow> GithubAPI \<Rightarrow> 'a Source_scheme \<Rightarrow> PullRequest \<Rightarrow> Version list \<Rightarrow> error + Version list"
where
  "pull_body L client source pull versions =
     (case pr_State pull of
        None \<Rightarrow> Inl nil_dereference
      | Some state \<Rightarrow>
          if \<not> requestsState source state then Inr versions
          else if \<not> requestsLabels source (pr_Labels pull) then Inr versions
          else if OnlyMergeable source \<and> pr_Mergeable pull = None then Inl nil_dereference
          else if OnlyMergeable source \<and> pr_Mergeable pull = Some False then Inr versions
          else
            (case pr_Draft pull of
               None \<Rightarrow> Inl nil_dereference
             | Some True \<Rightarrow> Inr versions
             | Some False \<Rightarrow>
                 (case pr_Number pull of
                    None \<Rightarrow> Inl nil_dereference
                  | Some n \<Rightarrow>
                      (case ListPullRequestComments client n of
                         Inl err \<Rightarrow> Inl err
                       | Inr comments \<Rightarrow>
                           (case comment_phase L source n comments versions of
                              Inl err \<Rightarrow> Inl err
                            | Inr (version, versions') \<Rightarrow>
                                (case ListPullRequestReviews client n of
                                   Inl err \<Rightarrow> Inl err
                                 | Inr reviews \<Rightarrow>
                                     review_phase L source n reviews version versions'))))))"

fun pulls_loop ::
  "stdlib \<Rightarrow> GithubAPI \<Rightarrow> 'a Source_scheme \<Rightarrow> PullRequest list \<Rightarrow> Version list \<Rightarrow> error + Version list"
where
  "pulls_loop L client source [] versions = Inr versions"
| "pulls_loop L client source (pull # pulls) versions =
     (case pull_body L client source pull versions of
        Inl err \<Rightarrow> Inl err
      | Inr versions' \<Rightarrow> pulls_loop L client source pulls versions')"

text \<open>The \<open>less\<close> function handed to \<open>sort.Slice\<close>.\<close>

definition version_less :: "Version \<Rightarrow> Version \<Rightarrow> bool" where
  "version_less a b = string_less (CreatedAt a) (CreatedAt b)"

text \<open>
  \<open>Check\<close>: an unset \<open>when\<close> is \<open>latest\<close>; the collected versions are sorted at the end.
  \<open>collect\<close> is \<open>Check\<close> up to, and without, the sort.
\<close>

definition collect :: "stdlib \<Rightarrow> GithubAPI \<Rightarrow> Source \<Rightarrow> error + Version list" where
  "collect L api source =
     (case NewGithubClient L (Repository source) (GithubEndpoint source) of
        Inl err \<Rightarrow> Inl err
      | Inr c \<Rightarrow>
          (let source' = (if length (When source) = 0 then source\<lparr>When := ''latest''\<rparr>
                          else source)
           in case ListPullRequests api of
                Inl err \<Rightarrow> Inl err
              | Inr pulls \<Rightarrow> pulls_loop L api source' pulls []))"

definition Check :: "stdlib \<Rightarrow> GithubAPI \<Rightarrow> Source \<Rightarrow> error + Version list" where
  "Check L api source =
     (case collect L api source of
        Inl err \<Rightarrow> Inl err
      | Inr versions \<Rightarrow> Inr (sort_Slice L version_less versions))"

section \<open>Predicates of the properties\<close>

text \<open>
  A comment matches when it passes the commenter-association predicate and the
  comment-text predicate, in the order in which the loop asks them.
\<close>

definition comment_matches :: "stdlib \<Rightarrow> 'a Source_scheme \<Rightarrow> IssueComment \<Rightarrow> bool" where
  "comment_matches L source c =
     (case ic_AuthorAssociation c of
        None \<Rightarrow> False
      | Some assoc \<Rightarrow>
          requestsCommenterAssociation L source assoc \<and>
          (case ic_Body c of None \<Rightarrow> False | Some body \<Rightarrow> requestsCommentRegex L source body))"

text \<open>The version that the loop builds for a comment of pull request \<open>n\<close>.\<close>

definition comment_version :: "int \<Rightarrow> IssueComment \<Rightarrow> Version" where
  "comment_version n c =
     \<lparr>CreatedAt = FormatInt (the (ic_CreatedAt c)), PrID = FormatInt n,
      ReviewID = [], CommentID = FormatInt (the (ic_ID c))\<rparr>"

text \<open>A comment as the API sends it: the fields that the loop dereferences are there.\<close>

definition complete_comment :: "IssueComment \<Rightarrow> bool" where
  "complete_comment c \<longleftrightarrow>
     ic_AuthorAssociation c \<noteq> None \<and> ic_Body c \<noteq> None \<and> ic_CreatedAt c \<noteq> None \<and> ic_ID c \<noteq> None"

text \<open>
  A well-identified version: a pull request id, and either a comment id or a review id,
  not both and not neither.
\<close>

definition version_ok :: "Version \<Rightarrow> bool" where
  "version_ok v \<longleftrightarrow>
     PrID v \<noteq> [] \<and>
     ((CommentID v \<noteq> [] \<and> ReviewID v = []) \<or> (CommentID v = [] \<and> ReviewID v \<noteq> []))"

section \<open>An environment for the examples\<close>

text \<open>
  Concrete library functions and API answers on which the examples are run.
  \<open>ascii_ToLower\<close> is \<open>strings.ToLower\<close> on ASCII text. \<open>sample_Match\<close> lists the
  answers of \<open>regexp.Match\<close> for the patterns of the examples: \<open>^ping$\<close> matches the
  text \<open>ping\<close> only, and \<open>(\<close> does not compile. \<open>insertionSort\<close> is the insertion
  sort that \<open>sort.Slice\<close> runs on a short slice: each element moves left while it is
  smaller than its left neighbour.
\<close>

definition ascii_ToLower :: "string \<Rightarrow> string" where
  "ascii_ToLower s =
     map (\<lambda>c. case map_of (zip ''ABCDEFGHIJKLMNOPQRSTUVWXYZ'' ''abcdefghijklmnopqrstuvwxyz'') c of
                None \<Rightarrow> c | Some l \<Rightarrow> l) s"

definition sample_Match :: "string \<Rightarrow> string \<Rightarrow> error + bool" where
  "sample_Match pattern b =
     (if pattern = ''^ping$'' then Inr (b = ''ping'')
      else if pattern = ''('' then Inl (RegexpError ''error parsing regexp: missing closing ): `(`'')
      else Inr False)"

fun insert_back :: "('a \<Rightarrow> 'a \<Rightarrow> bool) \<Rightarrow> 'a \<Rightarrow> 'a list \<Rightarrow> 'a list" where
  "insert_back lt x [] = [x]"
| "insert_back lt x (y # ys) = (if lt x y then y # insert_back lt x ys else x # y # ys)"

definition insertionSort :: "('a \<Rightarrow> 'a \<Rightarrow> bool) \<Rightarrow> 'a list \<Rightarrow> 'a list" where
  "insertionSort lt xs = rev (foldl (\<lambda>done x. insert_back lt x done) [] xs)"

definition sample_lib :: stdlib where
  "sample_lib =
     \<lparr>strings_ToLower = ascii_ToLower, regexp_Match = sample_Match,
      sort_Slice = insertionSort, url_Parse = Inr, github_NewEnterpriseClient = (\<lambda>e. Inr ())\<rparr>"

definition ping_source :: Source where
  "ping_source =
     \<lparr>SkipSSLVerification = False, GithubEndpoint = [], Repository = ''nderjung/limp'',
      DisableGitLfs = False, AccessToken = ''token'', Username = [], Password = [],
      OnlyMergeable = False, States = [], Labels = [], Comments = [''^ping$''],
      CommenterAssociation = [], MapCommentMeta = False, ReviewStates = [],
      When = ''latest'', IgnoreStates = [], IgnoreLabels = [], IgnoreComments = [],
      IgnoreDrafts = False\<rparr>"

definition all_source :: Source where
  "all_source = ping_source\<lparr>When := ''all'', ReviewStates := [''approved'']\<rparr>"

definition sample_comment :: "int \<Rightarrow> string \<Rightarrow> int \<Rightarrow> IssueComment" where
  "sample_comment i body t =
     \<lparr>ic_ID = Some i, ic_Body = Some body,
      ic_User = Some \<lparr>u_ID = Some 583231, u_Login = Some ''octocat'',
                      u_AvatarURL = Some ''https://example.com/a.png'',
                      u_HTMLURL = Some ''https://example.com/octocat''\<rparr>,
      ic_CreatedAt = Some t, ic_UpdatedAt = Some t, ic_AuthorAssociation = Some ''OWNER'',
      ic_HTMLURL = Some ''https://example.com/owner/repo/issues/42#issuecomment-7''\<rparr>"

definition sample_pull :: PullRequest where
  "sample_pull =
     \<lparr>pr_Number = Some 42, pr_State = Some ''open'', pr_Labels = [Some ''bug''],
      pr_Mergeable = None, pr_Draft = Some False\<rparr>"

definition sample_review :: PullRequestReview where
  "sample_review =
     \<lparr>rv_ID = Some 9, rv_Body = Some ''ping'', rv_State = Some ''APPROVED'',
      rv_SubmittedAt = Some 1600000030\<rparr>"

definition sample_api :: GithubAPI where
  "sample_api =
     \<lparr>ListPullRequests = Inr [sample_pull],
      ListPullRequestComments =
        (\<lambda>n. Inr (if n = 42 then [sample_comment 1 ''thanks'' 1600000000,
                                   sample_comment 2 ''ping'' 1600000060] else [])),
      ListPullRequestReviews = (\<lambda>n. Inr (if n = 42 then [sample_review] else []))\<rparr>"

section \<open>Properties\<close>

subsection \<open>The state predicate\<close>

lemma states_loop_iff: "states_loop ss state ret \<longleftrightarrow> state \<in> set ss \<or> ret"
  by (induction ss) auto

lemma ignore_states_loop_iff: "ignore_states_loop ss state ret \<longleftrightarrow> state \<notin> set ss \<and> ret"
  by (induction ss) auto

text \<open>
  Claim C8. With no configured \<open>states\<close> the state predicate accepts exactly the state
  \<open>open\<close>, with configured \<open>states\<close> exactly the members of that list, and in both cases
  a state listed in \<open>ignore_states\<close> is rejected: the deny-list wins, also over a state
  that is in both lists.
\<close>

theorem requestsState_spec:
  "requestsState source state \<longleftrightarrow>
     (if States source = [] then state = ''open'' else state \<in> set (States source))
     \<and> state \<notin> set (IgnoreStates source)"
  by (auto simp: requestsState_def Let_def states_loop_iff ignore_states_loop_iff)

subsection \<open>The check operation\<close>

lemma comments_track_latest:
  assumes "When source = ''latest''" and "\<forall>c\<in>set cs. complete_comment c"
  shows "\<exists>ver'. comments_track L source n cs (b, ver, vs) =
           Inr (if cs = [] then b else comment_matches L source (last cs), ver', vs)
         \<and> (cs \<noteq> [] \<and> comment_matches L source (last cs) \<longrightarrow> ver' = Some (comment_version n (last cs)))"
  using assms
proof (induction cs arbitrary: b ver)
  case Nil
  then show ?case by simp
next
  case (Cons c cs)
  then obtain a body t i where f: "ic_AuthorAssociation c = Some a" "ic_Body c = Some body"
      "ic_CreatedAt c = Some t" "ic_ID c = Some i"
    by (auto simp: complete_comment_def)
  show ?case
  proof (cases "cs = []")
    case True
    then show ?thesis using f Cons.prems(1)
      by (auto simp: comment_matches_def comment_version_def Let_def)
  next
    case False
    have w: "\<forall>c\<in>set cs. complete_comment c" using Cons.prems by simp
    show ?thesis
      using Cons.IH[OF Cons.prems(1) w] f False Cons.prems(1)
      by (auto simp: Let_def)
  qed
qed

text \<open>
  Claim C1. In mode \<open>latest\<close> the comment track of a pull request appends a version
  exactly when the last comment of the list passes both the commenter-association
  predicate and the comment-text predicate, and that version is the one of the last
  comment. So a matching comment followed by a non-matching one yields nothing, and a
  non-matching comment followed by a matching one yields the version of the second.
\<close>

theorem latest_comment_track:
  assumes "When source = ''latest''" and "\<forall>c\<in>set comments. complete_comment c"
  shows "\<exists>version. comment_phase L source n comments versions =
           Inr (version,
                versions @ (if comments \<noteq> [] \<and> comment_matches L source (last comments)
                            then [comment_version n (last comments)] else []))"
proof -
  obtain ver' where
    t: "comments_track L source n comments (False, None, versions) =
          Inr (if comments = [] then False else comment_matches L source (last comments), ver', versions)"
    and v: "comments \<noteq> [] \<and> comment_matches L source (last comments) \<longrightarrow>
            ver' = Some (comment_version n (last comments))"
    using comments_track_latest[OF assms, of L n False None versions] by blast
  show ?thesis
    using t v assms(1) by (auto simp: comment_phase_def save_latest_def)
qed

lemma FormatUint_digit: "n < 10 \<Longrightarrow> FormatUint n = [digit_char n]"
  by (simp add: FormatUint.simps)

lemma FormatUint_step: "10 \<le> n \<Longrightarrow> FormatUint n = FormatUint (n div 10) @ [digit_char (n mod 10)]"
  by (subst FormatUint.simps) simp

lemmas FormatInt_eval = FormatInt_def FormatUint_digit FormatUint_step digit_char_def

theorem latest_comment_track_witness:
  "When ping_source = ''latest''
   \<and> (\<forall>c\<in>set [sample_comment 1 ''thanks'' 1600000000, sample_comment 2 ''ping'' 1600000060].
         complete_comment c)
   \<and> (\<exists>version.
        comment_phase sample_lib ping_source 42
          [sample_comment 1 ''thanks'' 1600000000, sample_comment 2 ''ping'' 1600000060] [] =
        Inr (version, [\<lparr>CreatedAt = ''1600000060'', PrID = ''42'', ReviewID = [], CommentID = ''2''\<rparr>]))
   \<and> (\<exists>version.
        comment_phase sample_lib ping_source 42
          [sample_comment 1 ''ping'' 1600000000, sample_comment 2 ''thanks'' 1600000060] [] =
        Inr (version, []))"
proof -
  have w: "When ping_source = ''latest''" by (simp add: ping_source_def)
  have c1: "\<forall>c\<in>set [sample_comment 1 ''thanks'' 1600000000, sample_comment 2 ''ping'' 1600000060].
         complete_comment c"
    by (simp add: complete_comment_def sample_comment_def)
  have c2: "\<forall>c\<in>set [sample_comment 1 ''ping'' 1600000000, sample_comment 2 ''thanks'' 1600000060].
         complete_comment c"
    by (simp add: complete_comment_def sample_comment_def)
  have m1: "comment_matches sample_lib ping_source (sample_comment 2 ''ping'' 1600000060)"
    by (simp add: comment_matches_def sample_comment_def ping_source_def sample_lib_def
        requestsCommenterAssociation_def requestsCommentRegex_def matched_def sample_Match_def)
  have m2: "\<not> comment_matches sample_lib ping_source (sample_comment 2 ''thanks'' 1600000060)"
    by (simp add: comment_matches_def sample_comment_def ping_source_def sample_lib_def
        requestsCommenterAssociation_def requestsCommentRegex_def matched_def sample_Match_def)
  have v: "comment_version 42 (sample_comment 2 ''ping'' 1600000060) =
      \<lparr>CreatedAt = ''1600000060'', PrID = ''42'', ReviewID = [], CommentID = ''2''\<rparr>"
    by (simp add: comment_version_def sample_comment_def FormatInt_eval)
  show ?thesis
    using latest_comment_track[OF w c1, of sample_lib 42 "[]"]
      latest_comment_track[OF w c2, of sample_lib 42 "[]"] w c1 m1 m2 v
    by simp
qed

lemma FormatUint_nonempty: "FormatUint n \<noteq> []"
  by (subst FormatUint.simps) simp

lemma FormatInt_nonempty: "FormatInt i \<noteq> []"
  by (simp add: FormatInt_def FormatUint_nonempty)

lemma comments_track_Cons_step:
  assumes "comments_track L source n (c # cs) (b, ver, vs) = Inr r"
  shows "\<exists>b1 ver1 vs1.
           (r = (b1, ver1, vs1) \<or> comments_track L source n cs (b1, ver1, vs1) = Inr r) \<and>
           (ver1 = ver \<or> (\<exists>v. ver1 = Some v \<and> version_ok v)) \<and>
           (vs1 = vs \<or> (\<exists>v. vs1 = vs @ [v] \<and> version_ok v))"
proof (cases "ic_AuthorAssociation c")
  case None
  with assms show ?thesis by simp
next
  case (Some assoc)
  note a = this
  show ?thesis
  proof (cases "requestsCommenterAssociation L source assoc")
    case False
    with assms a have "comments_track L source n cs (False, ver, vs) = Inr r" by simp
    then show ?thesis by blast
  next
    case True
    note ra = this
    show ?thesis
    proof (cases "ic_Body c")
      case None
      with assms a ra show ?thesis by simp
    next
      case (Some body)
      note bd = this
      show ?thesis
      proof (cases "requestsCommentRegex L source body")
        case False
        with assms a ra bd have "comments_track L source n cs (False, ver, vs) = Inr r" by simp
        then show ?thesis by blast
      next
        case True
        note rb = this
        from assms a ra bd rb obtain created cid where
          f: "ic_CreatedAt c = Some created" "ic_ID c = Some cid"
          by (cases "ic_CreatedAt c"; cases "ic_ID c") auto
        define v where "v = \<lparr>CreatedAt = FormatInt created, PrID = FormatInt n,
                                  ReviewID = [], CommentID = FormatInt cid\<rparr>"
        define vs1 where "vs1 = (if When source = ''all'' \<or> When source = ''first''
                                          then vs @ [v] else vs)"
        have ok: "version_ok v" by (simp add: v_def version_ok_def FormatInt_nonempty)
        have "r = (True, Some v, vs1) \<or> comments_track L source n cs (True, Some v, vs1) = Inr r"
          using assms a ra bd rb f by (auto simp: Let_def v_def vs1_def split: if_splits)
        moreover have "vs1 = vs \<or> (\<exists>w. vs1 = vs @ [w] \<and> version_ok w)"
          using ok by (auto simp: vs1_def)
        ultimately show ?thesis using ok by blast
      qed
    qed
  qed
qed

lemma comments_track_ok:
  assumes "comments_track L source n cs (b, ver, vs) = Inr (b', ver', vs')"
    and "\<forall>v\<in>set vs. version_ok v" and "\<forall>v. ver = Some v \<longrightarrow> version_ok v"
  shows "(\<forall>v\<in>set vs'. version_ok v) \<and> (\<forall>v. ver' = Some v \<longrightarrow> version_ok v)"
  using assms
proof (induction cs arbitrary: b ver vs)
  case Nil
  then show ?case by simp
next
  case (Cons c cs)
  from comments_track_Cons_step[OF Cons.prems(1)] obtain b1 ver1 vs1 where
    s: "(b', ver', vs') = (b1, ver1, vs1) \<or> comments_track L source n cs (b1, ver1, vs1) = Inr (b', ver', vs')"
    and v: "ver1 = ver \<or> (\<exists>v. ver1 = Some v \<and> version_ok v)"
    and l: "vs1 = vs \<or> (\<exists>v. vs1 = vs @ [v] \<and> version_ok v)"
    by blast
  have i1: "\<forall>v\<in>set vs1. version_ok v" using l Cons.prems(2) by auto
  have i2: "\<forall>v. ver1 = Some v \<longrightarrow> version_ok v" using v Cons.prems(3) by auto
  from s show ?case
  proof
    assume "(b', ver', vs') = (b1, ver1, vs1)"
    then show ?thesis using i1 i2 by simp
  next
    assume "comments_track L source n cs (b1, ver1, vs1) = Inr (b', ver', vs')"
    from Cons.IH[OF this i1 i2] show ?thesis .
  qed
qed

lemma reviews_track_Cons_step:
  assumes "reviews_track L source n (c # cs) (b, ver, vs) = Inr r"
  shows "\<exists>b1 ver1 vs1.
           (r = (b1, ver1, vs1) \<or> reviews_track L source n cs (b1, ver1, vs1) = Inr r) \<and>
           (ver1 = ver \<or> (\<exists>v. ver1 = Some v \<and> version_ok v)) \<and>
           (vs1 = vs \<or> (\<exists>v. vs1 = vs @ [v] \<and> version_ok v))"
proof (cases "rv_State c")
  case None
  with assms show ?thesis by simp
next
  case (Some state)
  note a = this
  show ?thesis
  proof (cases "requestsReviewState L source state")
    case False
    with assms a have "reviews_track L source n cs (False, ver, vs) = Inr r" by simp
    then show ?thesis by blast
  next
    case True
    note ra = this
    show ?thesis
    proof (cases "rv_Body c")
      case None
      with assms a ra show ?thesis by simp
    next
      case (Some body)
      note bd = this
      show ?thesis
      proof (cases "requestsCommentRegex L source body")
        case False
        with assms a ra bd have "reviews_track L source n cs (False, ver, vs) = Inr r" by simp
        then show ?thesis by blast
      next
        case True
        note rb = this
        from assms a ra bd rb obtain submitted rid where
          f: "rv_SubmittedAt c = Some submitted" "rv_ID c = Some rid"
          by (cases "rv_SubmittedAt c"; cases "rv_ID c") auto
        define v where "v = \<lparr>CreatedAt = FormatInt submitted, PrID = FormatInt n,
                                  ReviewID = FormatInt rid, CommentID = []\<rparr>"
        define vs1 where "vs1 = (if When source = ''all'' \<or> When source = ''first''
                                          then vs @ [v] else vs)"
        have ok: "version_ok v" by (simp add: v_def version_ok_def FormatInt_nonempty)
        have "r = (True, Some v, vs1) \<or> reviews_track L source n cs (True, Some v, vs1) = Inr r"
          using assms a ra bd rb f by (auto simp: Let_def v_def vs1_def split: if_splits)
        moreover have "vs1 = vs \<or> (\<exists>w. vs1 = vs @ [w] \<and> version_ok w)"
          using ok by (auto simp: vs1_def)
        ultimately show ?thesis using ok by blast
      qed
    qed
  qed
qed

lemma reviews_track_ok:
  assumes "reviews_track L source n cs (b, ver, vs) = Inr (b', ver', vs')"
    and "\<forall>v\<in>set vs. version_ok v" and "\<forall>v. ver = Some v \<longrightarrow> version_ok v"
  shows "(\<forall>v\<in>set vs'. version_ok v) \<and> (\<forall>v. ver' = Some v \<longrightarrow> version_ok v)"
  using assms
proof (induction cs arbitrary: b ver vs)
  case Nil
  then show ?case by simp
next
  case (Cons c cs)
  from reviews_track_Cons_step[OF Cons.prems(1)] obtain b1 ver1 vs1 where
    s: "(b', ver', vs') = (b1, ver1, vs1) \<or> reviews_track L source n cs (b1, ver1, vs1) = Inr (b', ver', vs')"
    and v: "ver1 = ver \<or> (\<exists>v. ver1 = Some v \<and> version_ok v)"
    and l: "vs1 = vs \<or> (\<exists>v. vs1 = vs @ [v] \<and> version_ok v)"
    by blast
  have i1: "\<forall>v\<in>set vs1. version_ok v" using l Cons.prems(2) by auto
  have i2: "\<forall>v. ver1 = Some v \<longrightarrow> version_ok v" using v Cons.prems(3) by auto
  from s show ?case
  proof
    assume "(b', ver', vs') = (b1, ver1, vs1)"
    then show ?thesis using i1 i2 by simp
  next
    assume "reviews_track L source n cs (b1, ver1, vs1) = Inr (b', ver', vs')"
    from Cons.IH[OF this i1 i2] show ?thesis .
  qed
qed

lemma save_latest_ok:
  assumes "save_latest source (b, ver, vs) = Inr vs'"
    and "\<forall>v\<in>set vs. version_ok v" and "\<forall>v. ver = Some v \<longrightarrow> version_ok v"
  shows "\<forall>v\<in>set vs'. version_ok v"
  using assms by (auto simp: save_latest_def split: if_splits option.splits)

lemma comment_phase_ok:
  assumes "comment_phase L source n cs vs = Inr (ver', vs')" and "\<forall>v\<in>set vs. version_ok v"
  shows "(\<forall>v\<in>set vs'. version_ok v) \<and> (\<forall>v. ver' = Some v \<longrightarrow> version_ok v)"
proof -
  from assms(1) obtain b1 ver1 vs1 where
    t: "comments_track L source n cs (False, None, vs) = Inr (b1, ver1, vs1)"
    and s: "save_latest source (b1, ver1, vs1) = Inr vs'" and e: "ver' = ver1"
    by (auto simp: comment_phase_def split: sum.splits)
  have k: "(\<forall>v\<in>set vs1. version_ok v) \<and> (\<forall>v. ver1 = Some v \<longrightarrow> version_ok v)"
    using comments_track_ok[OF t assms(2)] by simp
  show ?thesis using save_latest_ok[OF s] k e by blast
qed

lemma review_phase_ok:
  assumes "review_phase L source n rs ver vs = Inr vs'" and "\<forall>v\<in>set vs. version_ok v"
    and "\<forall>v. ver = Some v \<longrightarrow> version_ok v"
  shows "\<forall>v\<in>set vs'. version_ok v"
proof -
  from assms(1) obtain b1 ver1 vs1 where
    t: "reviews_track L source n rs (False, ver, vs) = Inr (b1, ver1, vs1)"
    and s: "save_latest source (b1, ver1, vs1) = Inr vs'"
    by (auto simp: review_phase_def split: sum.splits)
  have k: "(\<forall>v\<in>set vs1. version_ok v) \<and> (\<forall>v. ver1 = Some v \<longrightarrow> version_ok v)"
    using reviews_track_ok[OF t assms(2,3)] .
  show ?thesis using save_latest_ok[OF s] k by blast
qed

lemma pull_body_ok:
  assumes "pull_body L client source pull vs = Inr vs'" and "\<forall>v\<in>set vs. version_ok v"
  shows "\<forall>v\<in>set vs'. version_ok v"
proof (cases "vs' = vs")
  case True
  then show ?thesis using assms(2) by simp
next
  case False
  with assms(1) obtain n cs ver vs1 rs where
    c: "comment_phase L source n cs vs = Inr (ver, vs1)"
    and r: "review_phase L source n rs ver vs1 = Inr vs'"
    by (auto simp: pull_body_def split: option.splits if_splits sum.splits bool.splits)
  from comment_phase_ok[OF c assms(2)] review_phase_ok[OF r] show ?thesis by blast
qed

lemma pulls_loop_ok:
  assumes "pulls_loop L client source pulls vs = Inr vs'" and "\<forall>v\<in>set vs. version_ok v"
  shows "\<forall>v\<in>set vs'. version_ok v"
  using assms
proof (induction pulls arbitrary: vs)
  case Nil
  then show ?case by simp
next
  case (Cons p ps)
  from Cons.prems(1) obtain vs1 where
    b: "pull_body L client source p vs = Inr vs1"
    and l: "pulls_loop L client source ps vs1 = Inr vs'"
    by (auto split: sum.splits)
  from Cons.IH[OF l pull_body_ok[OF b Cons.prems(2)]] show ?case .
qed

text \<open>
  Claim C2. Every version that the check operation collects, in every mode, has its
  pull request id set and exactly one of the comment id and the review id non-empty.
\<close>

theorem collected_versions_identified:
  assumes "collect L api source = Inr versions"
  shows "\<forall>v\<in>set versions. version_ok v"
proof -
  from assms obtain source' :: Source and pulls where
    "pulls_loop L api source' pulls [] = Inr versions"
    by (auto simp: collect_def Let_def split: sum.splits if_splits)
  from pulls_loop_ok[OF this] show ?thesis by simp
qed

lemma ping_matches:
  "requestsCommentRegex sample_lib all_source ''ping''"
  "\<not> requestsCommentRegex sample_lib all_source ''thanks''"
  by (simp_all add: requestsCommentRegex_def all_source_def ping_source_def sample_lib_def
      matched_def sample_Match_def)

lemma sample_collect:
  "collect sample_lib sample_api all_source =
     Inr [\<lparr>CreatedAt = ''1600000060'', PrID = ''42'', ReviewID = [], CommentID = ''2''\<rparr>,
          \<lparr>CreatedAt = ''1600000030'', PrID = ''42'', ReviewID = ''9'', CommentID = []\<rparr>]"
proof -
  have w: "When all_source = ''all''" "Repository all_source = ''nderjung/limp''"
    "GithubEndpoint all_source = []" "States all_source = []" "IgnoreStates all_source = []"
    "Labels all_source = []" "IgnoreLabels all_source = []" "\<not> OnlyMergeable all_source"
    by (simp_all add: all_source_def ping_source_def)
  have a: "requestsCommenterAssociation sample_lib all_source ''OWNER''"
    by (simp add: requestsCommenterAssociation_def all_source_def ping_source_def)
  have r: "requestsReviewState sample_lib all_source ''APPROVED''"
    by (simp add: requestsReviewState_def all_source_def ping_source_def sample_lib_def
        ascii_ToLower_def)
  have g: "NewGithubClient sample_lib ''nderjung/limp'' [] = Inr (''nderjung'', ''limp'')"
    by (simp add: NewGithubClient_def parseRepository_def)
  have c: "comment_phase sample_lib all_source 42
             [sample_comment 1 ''thanks'' 1600000000, sample_comment 2 ''ping'' 1600000060] [] =
           Inr (Some \<lparr>CreatedAt = ''1600000060'', PrID = ''42'', ReviewID = [], CommentID = ''2''\<rparr>,
                [\<lparr>CreatedAt = ''1600000060'', PrID = ''42'', ReviewID = [], CommentID = ''2''\<rparr>])"
    using a ping_matches w(1)
    by (simp add: comment_phase_def save_latest_def sample_comment_def FormatInt_eval Let_def)
  have v: "review_phase sample_lib all_source 42 [sample_review]
             (Some \<lparr>CreatedAt = ''1600000060'', PrID = ''42'', ReviewID = [], CommentID = ''2''\<rparr>)
             [\<lparr>CreatedAt = ''1600000060'', PrID = ''42'', ReviewID = [], CommentID = ''2''\<rparr>] =
           Inr [\<lparr>CreatedAt = ''1600000060'', PrID = ''42'', ReviewID = [], CommentID = ''2''\<rparr>,
                \<lparr>CreatedAt = ''1600000030'', PrID = ''42'', ReviewID = ''9'', CommentID = []\<rparr>]"
    using r ping_matches w(1)
    by (simp add: review_phase_def save_latest_def sample_review_def FormatInt_eval Let_def)
  have s: "requestsState all_source ''open''" "requestsLabels all_source [Some ''bug'']"
    using w by (simp_all add: requestsState_def requestsLabels_def)
  have p: "pull_body sample_lib sample_api all_source sample_pull [] =
           Inr [\<lparr>CreatedAt = ''1600000060'', PrID = ''42'', ReviewID = [], CommentID = ''2''\<rparr>,
                \<lparr>CreatedAt = ''1600000030'', PrID = ''42'', ReviewID = ''9'', CommentID = []\<rparr>]"
    using s w(8) c v by (simp add: pull_body_def sample_pull_def sample_api_def)
  show ?thesis
    using g p w(1,2,3) by (simp add: collect_def sample_api_def)
qed

theorem collected_versions_identified_witness:
  "collect sample_lib sample_api all_source =
     Inr [\<lparr>CreatedAt = ''1600000060'', PrID = ''42'', ReviewID = [], CommentID = ''2''\<rparr>,
          \<lparr>CreatedAt = ''1600000030'', PrID = ''42'', ReviewID = ''9'', CommentID = []\<rparr>]
   \<and> (\<forall>v\<in>set [\<lparr>CreatedAt = ''1600000060'', PrID = ''42'', ReviewID = [], CommentID = ''2''\<rparr>,
          \<lparr>CreatedAt = ''1600000030'', PrID = ''42'', ReviewID = ''9'', CommentID = []\<rparr>].
         version_ok v)"
  using collected_versions_identified[OF sample_collect] sample_collect by simp

end
